theory Spec2Isabelle
  imports Complex_Main
begin

section \<open>Python values and library types used by app.py\<close>

type_synonym path = string

text \<open>Exceptions that reach the program, each with the text \<open>str(e)\<close> gives.
  \<open>LibError\<close> stands for an exception class of cv2, TensorFlow or PIL.\<close>

datatype exn =
    ValueError string
  | TypeError string
  | IndexError string
  | TclError string
  | LibError string

fun str_exn :: "exn \<Rightarrow> string" where
  "str_exn (ValueError m) = m"
| "str_exn (TypeError m) = m"
| "str_exn (IndexError m) = m"
| "str_exn (TclError m) = m"
| "str_exn (LibError m) = m"

text \<open>A numpy array: its \<open>shape\<close> tuple and its samples in row-major order. Samples are
  real numbers; the rounding of float32 is not modelled.\<close>

record ndarray =
  shape :: "nat list"
  data :: "real list"

text \<open>\<open>datetime.now()\<close> as its six calendar fields.\<close>

record datetime =
  year :: nat
  month :: nat
  day :: nat
  hour :: nat
  minute :: nat
  second :: nat

text \<open>A PIL image: mode, size and the drawing operations applied to it so far. The pixel
  content is left to PIL.\<close>

datatype draw_op =
    Rectangle nat nat nat nat string
  | DrawText nat nat string string

record pil_image =
  im_mode :: string
  im_width :: nat
  im_height :: nat
  im_ops :: "draw_op list"

section \<open>The environment: the libraries and the loaded model\<close>

text \<open>What app.py calls but does not define. \<open>cv2_imread\<close> gives \<open>None\<close> for a file it
  cannot decode, as cv2.imread does; the other calls either return or raise.
  \<open>datetime_now\<close> is the wall clock as a function of logical time (the number of logged
  calls made so far). \<open>IMG_H\<close> and \<open>IMG_W\<close> are read from the loaded model at line 31.\<close>

record env =
  cv2_imread :: "path \<Rightarrow> ndarray option"
  cv2_resize :: "ndarray \<Rightarrow> nat \<times> nat \<Rightarrow> exn + ndarray"
  model_predict :: "ndarray \<Rightarrow> exn + real list list"
  IMG_H :: nat
  IMG_W :: nat
  format_2f :: "real \<Rightarrow> string"
  os_path_join :: "path \<Rightarrow> path \<Rightarrow> path"
  os_path_basename :: "path \<Rightarrow> string"
  datetime_now :: "nat \<Rightarrow> datetime"
  Image_open :: "path \<Rightarrow> exn + pil_image"
  thumbnail_size :: "nat \<times> nat \<Rightarrow> nat \<times> nat \<Rightarrow> nat \<times> nat"

section \<open>The world: the widgets, the file system and the log of outside calls\<close>

datatype event =
    Imread path
  | Predict
  | PILOpen path
  | ShowError string string
  | ShowInfo string string
  | Makedirs path
  | Now
  | WriteCsv path "string list list"

fun is_WriteCsv :: "event \<Rightarrow> bool" where
  "is_WriteCsv (WriteCsv p rows) = True"
| "is_WriteCsv e = False"

text \<open>The events the batch loop itself can log.\<close>

fun loop_event :: "event \<Rightarrow> bool" where
  "loop_event (Imread p) = True"
| "loop_event Predict = True"
| "loop_event (ShowError t m) = True"
| "loop_event e = False"

text \<open>\<open>listbox\<close> holds each item's text and its foreground colour, if one was set.\<close>

record world =
  trace :: "event list"
  listbox :: "(string \<times> string option) list"
  progress_value :: nat
  progress_maximum :: nat
  image_label :: "pil_image option"
  result_label :: "string \<times> string"
  dirs :: "path set"
  files :: "path \<Rightarrow> string list list option"

definition log :: "event \<Rightarrow> world \<Rightarrow> world" where
  "log e w = w\<lparr>trace := trace w @ [e]\<rparr>"

definition showerror :: "string \<Rightarrow> string \<Rightarrow> world \<Rightarrow> world" where
  "showerror title msg w = log (ShowError title msg) w"

definition showinfo :: "string \<Rightarrow> string \<Rightarrow> world \<Rightarrow> world" where
  "showinfo title msg w = log (ShowInfo title msg) w"

text \<open>\<open>os.makedirs(p, exist_ok=True)\<close>: the directory exists afterwards, whether or not it did
  before.\<close>

definition makedirs :: "path \<Rightarrow> world \<Rightarrow> world" where
  "makedirs p w = log (Makedirs p) (w\<lparr>dirs := insert p (dirs w)\<rparr>)"

text \<open>Opening the file in mode \<open>'w'\<close> and writing the rows with csv.writer: the file holds
  exactly these rows afterwards.\<close>

definition write_csv :: "path \<Rightarrow> string list list \<Rightarrow> world \<Rightarrow> world" where
  "write_csv p rows w = log (WriteCsv p rows) (w\<lparr>files := (files w)(p \<mapsto> rows)\<rparr>)"

text \<open>\<open>listbox.itemconfig(index, {'fg': c})\<close>. Tk refuses an index that is not an item of the
  list (\<open>item number "i" out of range\<close>), which tkinter raises as TclError.\<close>

definition listbox_itemconfig :: "nat \<Rightarrow> string \<Rightarrow> world \<Rightarrow> exn + world" where
  "listbox_itemconfig idx fg w =
     (if idx < length (listbox w)
      then Inr (w\<lparr>listbox := (listbox w)[idx := (fst (listbox w ! idx), Some fg)]\<rparr>)
      else Inl (TclError ''item number out of range''))"

definition listbox_insert_END :: "string \<Rightarrow> world \<Rightarrow> world" where
  "listbox_insert_END s w = w\<lparr>listbox := listbox w @ [(s, None)]\<rparr>"

section \<open>Configuration (lines 14-31)\<close>

definition bs :: char where
  "bs = CHR 0x5C"

definition nl :: char where
  "nl = CHR 0x0A"

definition DATASET_DIR :: path where
  "DATASET_DIR = ''C:'' @ [bs] @ ''Users'' @ [bs] @ ''USER'' @ [bs] @ ''Desktop'' @ [bs]
     @ ''DATASETS'' @ [bs] @ ''XRAY''"

definition CLASS_NAMES :: "string list" where
  "CLASS_NAMES = [''COVID'', ''TB'', ''PNEUMONIA'', ''NORMAL'']"

definition CLASS_COLORS :: "string \<Rightarrow> string option" where
  "CLASS_COLORS = map_of
     [(''COVID'', ''#FF4C4C''), (''TB'', ''#FF9900''),
      (''PNEUMONIA'', ''#FFD700''), (''NORMAL'', ''#4CAF50'')]"

text \<open>\<open>d.get(k, default)\<close>.\<close>

definition dict_get :: "('k \<Rightarrow> 'v option) \<Rightarrow> 'k \<Rightarrow> 'v \<Rightarrow> 'v" where
  "dict_get d k dflt = (case d k of None \<Rightarrow> dflt | Some v \<Rightarrow> v)"

section \<open>preprocess\_image (lines 36-49)\<close>

text \<open>The test \<open>len(img.shape) == 2 or img.shape[2] == 1\<close>; the second operand is evaluated
  only when the first is false, and indexing a shorter tuple raises.\<close>

definition is_gray :: "ndarray \<Rightarrow> exn + bool" where
  "is_gray img =
     (if length (shape img) = 2 then Inr True
      else if 2 < length (shape img) then Inr (shape img ! 2 = 1)
      else Inl (IndexError ''tuple index out of range''))"

text \<open>\<open>cv2.cvtColor(img, cv2.COLOR_GRAY2RGB)\<close>: every sample is written to the three
  channels.\<close>

definition cvtColor_GRAY2RGB :: "ndarray \<Rightarrow> exn + ndarray" where
  "cvtColor_GRAY2RGB img =
     (if length (shape img) = 2 \<or> (length (shape img) = 3 \<and> shape img ! 2 = 1)
      then Inr \<lparr>shape = take 2 (shape img) @ [3],
                data = concat (map (\<lambda>v. [v, v, v]) (data img))\<rparr>
      else Inl (LibError ''cvtColor: invalid number of channels''))"

text \<open>\<open>img.astype(np.float32)/255.0\<close> and \<open>np.expand_dims(img, 0)\<close>.\<close>

definition div255 :: "ndarray \<Rightarrow> ndarray" where
  "div255 img = img\<lparr>data := map (\<lambda>v. v / 255) (data img)\<rparr>"

definition expand_dims0 :: "ndarray \<Rightarrow> ndarray" where
  "expand_dims0 img = img\<lparr>shape := 1 # shape img\<rparr>"

text \<open>The body of the \<open>try\<close>: the array it returns, or the exception it raises.\<close>

definition preprocess_try :: "env \<Rightarrow> path \<Rightarrow> exn + ndarray" where
  "preprocess_try env image_path =
     (case cv2_imread env image_path of
        None \<Rightarrow> Inl (ValueError ''Cannot read image'')
      | Some img \<Rightarrow>
          (case is_gray img of
             Inl e \<Rightarrow> Inl e
           | Inr g \<Rightarrow>
               (case (if g then cvtColor_GRAY2RGB img else Inr img) of
                  Inl e \<Rightarrow> Inl e
                | Inr img1 \<Rightarrow>
                    (case cv2_resize env img1 (IMG_W env, IMG_H env) of
                       Inl e \<Rightarrow> Inl e
                     | Inr img2 \<Rightarrow> Inr (expand_dims0 (div255 img2))))))"

text \<open>The \<open>except Exception\<close> clause turns every exception of the body into an error dialog
  and the result \<open>None\<close>.\<close>

definition preprocess_image :: "env \<Rightarrow> path \<Rightarrow> world \<Rightarrow> world \<times> ndarray option" where
  "preprocess_image env image_path w =
     (case preprocess_try env image_path of
        Inr img \<Rightarrow> (log (Imread image_path) w, Some img)
      | Inl e \<Rightarrow>
          (showerror ''Image Error''
             (''Failed to load '' @ image_path @ [nl] @ str_exn e)
             (log (Imread image_path) w), None))"

section \<open>predict\_image (lines 51-57)\<close>

text \<open>\<open>np.argmax\<close>: one pass that keeps the first position of the largest value seen.\<close>

fun argmax_from :: "real list \<Rightarrow> nat \<Rightarrow> nat \<Rightarrow> real \<Rightarrow> nat" where
  "argmax_from [] i best m = best"
| "argmax_from (x # xs) i best m =
     (if m < x then argmax_from xs (Suc i) i x else argmax_from xs (Suc i) best m)"

definition np_argmax :: "real list \<Rightarrow> exn + nat" where
  "np_argmax xs =
     (case xs of
        [] \<Rightarrow> Inl (ValueError ''attempt to get argmax of an empty sequence'')
      | x # rest \<Rightarrow> Inr (argmax_from rest 1 0 x))"

definition predict_image ::
  "env \<Rightarrow> path \<Rightarrow> world \<Rightarrow> world \<times> (exn + (string option \<times> real option))" where
  "predict_image env image_path w =
     (case preprocess_image env image_path w of
        (w1, None) \<Rightarrow> (w1, Inr (None, None))
      | (w1, Some img) \<Rightarrow>
          (let w2 = log Predict w1
           in case model_predict env img of
                Inl e \<Rightarrow> (w2, Inl e)
              | Inr out \<Rightarrow>
                  (case out of
                     [] \<Rightarrow> (w2, Inl (IndexError ''index 0 is out of bounds''))
                   | preds # _ \<Rightarrow>
                       (case np_argmax preds of
                          Inl e \<Rightarrow> (w2, Inl e)
                        | Inr idx \<Rightarrow>
                            (if idx < length CLASS_NAMES
                             then (w2, Inr (Some (CLASS_NAMES ! idx), Some (preds ! idx * 100)))
                             else (w2, Inl (IndexError ''list index out of range'')))))))"

section \<open>overlay\_prediction (lines 59-69)\<close>

text \<open>\<open>f"{confidence:.2f}"\<close>: formatting \<open>None\<close> with a float format raises TypeError.\<close>

definition py_format_2f :: "env \<Rightarrow> real option \<Rightarrow> exn + string" where
  "py_format_2f env c =
     (case c of
        None \<Rightarrow> Inl (TypeError ''unsupported format string passed to NoneType.__format__'')
      | Some x \<Rightarrow> Inr (format_2f env x))"

definition overlay_prediction ::
  "env \<Rightarrow> path \<Rightarrow> string \<Rightarrow> real option \<Rightarrow> world \<Rightarrow> world \<times> (exn + pil_image)" where
  "overlay_prediction env image_path label confidence w =
     (case Image_open env image_path of
        Inl e \<Rightarrow> (log (PILOpen image_path) w, Inl e)
      | Inr img0 \<Rightarrow>
          (let img1 = (if im_mode img0 \<noteq> ''RGB'' then img0\<lparr>im_mode := ''RGB''\<rparr> else img0);
               sz = thumbnail_size env (im_width img1, im_height img1) (300, 300);
               img2 = img1\<lparr>im_width := fst sz, im_height := snd sz\<rparr>
           in case py_format_2f env confidence of
                Inl e \<Rightarrow> (log (PILOpen image_path) w, Inl e)
              | Inr c \<Rightarrow>
                  (let text = label @ '' ('' @ c @ ''%)'';
                       img3 = img2\<lparr>im_ops := im_ops img2 @
                                [Rectangle 0 0 (im_width img2) 25
                                   (dict_get CLASS_COLORS label ''black'')]\<rparr>;
                       img4 = img3\<lparr>im_ops := im_ops img3 @ [DrawText 5 5 text ''white'']\<rparr>
                   in (log (PILOpen image_path) w, Inr img4))))"

section \<open>upload\_predict\_single (lines 74-85)\<close>

text \<open>Lines 79-85, for the pair that \<open>predict_image\<close> returned.\<close>

definition upload_show ::
  "env \<Rightarrow> path \<Rightarrow> string option \<times> real option \<Rightarrow> world \<Rightarrow> world \<times> exn option" where
  "upload_show env file_path r w =
     (case fst r of
        None \<Rightarrow> (w, None)
      | Some label \<Rightarrow>
          (case overlay_prediction env file_path label (snd r) w of
             (w1, Inl e) \<Rightarrow> (w1, Some e)
           | (w1, Inr img_tk) \<Rightarrow>
               (case py_format_2f env (snd r) of
                  Inl e \<Rightarrow> (w1\<lparr>image_label := Some img_tk\<rparr>, Some e)
                | Inr c \<Rightarrow>
                    (w1\<lparr>image_label := Some img_tk,
                        result_label :=
                          (''Prediction: '' @ label @ [nl] @ ''Confidence: '' @ c @ ''%'',
                           dict_get CLASS_COLORS label ''black'')\<rparr>, None))))"

text \<open>\<open>file_path\<close> is what the file picker returned; the empty string is a cancelled
  dialog. The second component is the exception that leaves the function, if any.\<close>

definition upload_predict_single :: "env \<Rightarrow> path \<Rightarrow> world \<Rightarrow> world \<times> exn option" where
  "upload_predict_single env file_path w =
     (if file_path = [] then (w, None)
      else (case predict_image env file_path w of
              (w1, Inl e) \<Rightarrow> (w1, Some e)
            | (w1, Inr r) \<Rightarrow> upload_show env file_path r w1))"

section \<open>batch\_predict (lines 87-112)\<close>

text \<open>The arrow of line 104, in UTF-8.\<close>

definition arrow :: string where
  "arrow = [CHR 0xE2, CHR 0x86, CHR 0x92]"

text \<open>Lines 101-107 for the \<open>i\<close>-th file (counted from 1) and the pair \<open>predict_image\<close>
  returned. The state is the world and the list \<open>results\<close>.\<close>

definition batch_body ::
  "env \<Rightarrow> nat \<Rightarrow> path \<Rightarrow> string option \<times> real option \<Rightarrow> world \<times> string list list
     \<Rightarrow> (world \<times> string list list) \<times> exn option" where
  "batch_body env i file_path r s =
     (case fst r of
        None \<Rightarrow> (s, None)
      | Some label \<Rightarrow>
          (case py_format_2f env (snd r) of
             Inl e \<Rightarrow> (s, Some e)
           | Inr c \<Rightarrow>
               (let results = snd s @ [[os_path_basename env file_path, label, c @ ''%'']];
                    w1 = listbox_insert_END
                           (os_path_basename env file_path @ '' '' @ arrow @ '' '' @ label
                              @ '' ('' @ c @ ''%)'') (fst s)
                in case listbox_itemconfig (i - 1)
                          (dict_get CLASS_COLORS label ''black'') w1 of
                     Inl e \<Rightarrow> ((w1, results), Some e)
                   | Inr w2 \<Rightarrow> ((w2\<lparr>progress_value := i\<rparr>, results), None))))"

text \<open>The \<open>for\<close> loop of line 99; \<open>i\<close> is the counter of \<open>enumerate(file_paths, 1)\<close>.\<close>

fun batch_loop ::
  "env \<Rightarrow> nat \<Rightarrow> path list \<Rightarrow> world \<times> string list list
     \<Rightarrow> (world \<times> string list list) \<times> exn option" where
  "batch_loop env i [] s = (s, None)"
| "batch_loop env i (file_path # rest) s =
     (case predict_image env file_path (fst s) of
        (w1, Inl e) \<Rightarrow> ((w1, snd s), Some e)
      | (w1, Inr r) \<Rightarrow>
          (case batch_body env i file_path r (w1, snd s) of
             (s2, Some e) \<Rightarrow> (s2, Some e)
           | (s2, None) \<Rightarrow> batch_loop env (Suc i) rest s2))"

definition save_folder :: "env \<Rightarrow> path" where
  "save_folder env = os_path_join env DATASET_DIR ''predictions''"

text \<open>Digits of \<open>strftime("%Y%m%d_%H%M%S")\<close>.\<close>

definition digit :: "nat \<Rightarrow> char" where
  "digit d = ''0123456789'' ! (d mod 10)"

definition pad2 :: "nat \<Rightarrow> string" where
  "pad2 n = [digit (n div 10), digit n]"

definition pad4 :: "nat \<Rightarrow> string" where
  "pad4 n = [digit (n div 1000), digit (n div 100), digit (n div 10), digit n]"

definition strftime :: "datetime \<Rightarrow> string" where
  "strftime t = pad4 (year t) @ pad2 (month t) @ pad2 (day t) @ ''_''
     @ pad2 (hour t) @ pad2 (minute t) @ pad2 (second t)"

definition csv_name :: "string \<Rightarrow> string" where
  "csv_name timestamp = ''xray_predictions_'' @ timestamp @ ''.csv''"

text \<open>The form \<open>YYYYMMDD_HHMMSS\<close>: fifteen characters, digits but for the underscore.\<close>

definition is_digit :: "char \<Rightarrow> bool" where
  "is_digit c = (c \<in> set ''0123456789'')"

definition is_timestamp :: "string \<Rightarrow> bool" where
  "is_timestamp s =
     (length s = 15 \<and> s ! 8 = CHR ''_'' \<and> list_all is_digit (take 8 s)
      \<and> list_all is_digit (drop 9 s))"

text \<open>\<open>file_paths\<close> is what the file picker returned; the empty tuple is a cancelled
  dialog. The second component is the exception that leaves the function, if any.\<close>

definition batch_predict :: "env \<Rightarrow> path list \<Rightarrow> world \<Rightarrow> world \<times> exn option" where
  "batch_predict env file_paths w =
     (if file_paths = [] then (w, None)
      else
        (let w1 = w\<lparr>progress_value := 0, progress_maximum := length file_paths,
                    listbox := []\<rparr>;
             w2 = makedirs (save_folder env) w1;
             timestamp = strftime (datetime_now env (length (trace w2)));
             w3 = log Now w2;
             csv_file = os_path_join env (save_folder env) (csv_name timestamp)
         in case batch_loop env 1 file_paths (w3, []) of
              ((w4, results), Some e) \<Rightarrow> (w4, Some e)
            | ((w4, results), None) \<Rightarrow>
                (showinfo ''Batch Prediction''
                   (''Predictions completed!'' @ [nl] @ ''Saved to: '' @ csv_file)
                   (write_csv csv_file ([''Image'', ''Prediction'', ''Confidence''] # results)
                      w4), None)))"

section \<open>A test environment\<close>

text \<open>A small concrete environment on which the theorems are instantiated: three files
  that decode (colour, grayscale and colour with an alpha channel), a model with a 2 by 2
  input, nearest-neighbour resampling, and a clock that advances with every logged call.
  Every other path fails to decode.\<close>

definition imread0 :: "path \<Rightarrow> ndarray option" where
  "imread0 p =
     (if p = ''a.png'' then Some \<lparr>shape = [1, 1, 3], data = [0, 128, 255]\<rparr>
      else if p = ''g.png'' then Some \<lparr>shape = [1, 2], data = [51, 255]\<rparr>
      else if p = ''rgba.png'' then Some \<lparr>shape = [1, 1, 4], data = [10, 20, 30, 255]\<rparr>
      else None)"

definition resize0 :: "ndarray \<Rightarrow> nat \<times> nat \<Rightarrow> exn + ndarray" where
  "resize0 img dsize =
     (case shape img of
        [h, w, c] \<Rightarrow>
          (if h = 0 \<or> w = 0 \<or> fst dsize = 0 \<or> snd dsize = 0
           then Inl (LibError ''resize: empty image or size'')
           else Inr \<lparr>shape = [snd dsize, fst dsize, c],
                     data = concat (map (\<lambda>y. concat (map (\<lambda>x. map (\<lambda>k.
                              data img ! (((y * h div snd dsize) * w + x * w div fst dsize) * c + k))
                              [0..<c]) [0..<fst dsize])) [0..<snd dsize])\<rparr>)
      | _ \<Rightarrow> Inl (LibError ''resize: unsupported shape''))"

definition predict0 :: "ndarray \<Rightarrow> exn + real list list" where
  "predict0 t =
     (if shape t = [1, 2, 2, 3]
      then (if data t ! 0 = 0 then Inr [[1/10, 2/5, 2/5, 1/10]] else Inr [[1/2, 1/4, 1/8, 1/8]])
      else Inl (LibError ''input is incompatible with the layer''))"

definition format0 :: "real \<Rightarrow> string" where
  "format0 x =
     (let n = nat \<lfloor>x * 100\<rfloor>
      in (if 10000 \<le> n then [digit (n div 10000)] else [])
         @ (if 1000 \<le> n then [digit (n div 1000)] else [])
         @ [digit (n div 100), CHR ''.'', digit (n div 10), digit n])"

definition join0 :: "path \<Rightarrow> path \<Rightarrow> path" where
  "join0 a b = a @ [bs] @ b"

definition basename0 :: "path \<Rightarrow> string" where
  "basename0 p = rev (takeWhile (\<lambda>c. c \<noteq> CHR ''/'' \<and> c \<noteq> bs) (rev p))"

definition now0 :: "nat \<Rightarrow> datetime" where
  "now0 k = \<lparr>year = 2024, month = 5, day = 17, hour = 9, minute = 30, second = k mod 60\<rparr>"

definition open0 :: "path \<Rightarrow> exn + pil_image" where
  "open0 p =
     (if p = ''a.png'' then Inr \<lparr>im_mode = ''RGB'', im_width = 600, im_height = 400, im_ops = []\<rparr>
      else if p = ''g.png'' then Inr \<lparr>im_mode = ''L'', im_width = 200, im_height = 100, im_ops = []\<rparr>
      else Inl (LibError ''cannot identify image file''))"

definition thumb0 :: "nat \<times> nat \<Rightarrow> nat \<times> nat \<Rightarrow> nat \<times> nat" where
  "thumb0 sz bound =
     (if fst sz \<le> fst bound \<and> snd sz \<le> snd bound then sz
      else if fst sz * snd bound \<le> fst bound * snd sz
      then (max 1 (fst sz * snd bound div snd sz), snd bound)
      else (fst bound, max 1 (snd sz * fst bound div fst sz)))"

definition env0 :: env where
  "env0 = \<lparr>cv2_imread = imread0, cv2_resize = resize0, model_predict = predict0,
            IMG_H = 2, IMG_W = 2, format_2f = format0, os_path_join = join0,
            os_path_basename = basename0, datetime_now = now0, Image_open = open0,
            thumbnail_size = thumb0\<rparr>"

definition world0 :: world where
  "world0 = \<lparr>trace = [], listbox = [], progress_value = 0, progress_maximum = 100,
              image_label = None, result_label = ([], []), dirs = {},
              files = (\<lambda>p. None)\<rparr>"

section \<open>What predict\_image returns and logs\<close>

text \<open>\<open>predict_image\<close> changes the world only by extending the log, and neither its
  result nor the events it logs depend on the world it starts in (lemma
  \<open>predict_image_eq\<close>); these two names stand for them.\<close>

definition prediction :: "env \<Rightarrow> path \<Rightarrow> exn + (string option \<times> real option)" where
  "prediction env p = snd (predict_image env p world0)"

definition predict_events :: "env \<Rightarrow> path \<Rightarrow> event list" where
  "predict_events env p = trace (fst (predict_image env p world0))"


text \<open>The report row of a file that is classified.\<close>

definition report_row :: "env \<Rightarrow> path \<Rightarrow> string list" where
  "report_row env p =
     (case prediction env p of
        Inr (Some l, Some c) \<Rightarrow> [os_path_basename env p, l, format_2f env c @ ''%'']
      | _ \<Rightarrow> [])"

section \<open>Properties of np.argmax\<close>

lemma argmax_from_spec:
  assumes "length ys = i" "b < i" "ys ! b = m"
    and "\<forall>j<i. ys ! j \<le> m" and "\<forall>j<b. ys ! j < m"
  shows "argmax_from xs i b m < i + length xs
     \<and> (\<forall>j<i + length xs. (ys @ xs) ! j \<le> (ys @ xs) ! argmax_from xs i b m)
     \<and> (\<forall>j<argmax_from xs i b m. (ys @ xs) ! j < (ys @ xs) ! argmax_from xs i b m)"
  using assms
proof (induction xs arbitrary: ys i b m)
  case Nil
  then show ?case by simp
next
  case (Cons x xs)
  show ?case
  proof (cases "m < x")
    case True
    have a: "length (ys @ [x]) = Suc i" using Cons.prems by simp
    have b: "i < Suc i" by simp
    have c: "(ys @ [x]) ! i = x" using Cons.prems by (simp add: nth_append)
    have d: "\<forall>j<Suc i. (ys @ [x]) ! j \<le> x"
      using Cons.prems True by (auto simp: nth_append less_Suc_eq)
    have e: "\<forall>j<i. (ys @ [x]) ! j < x"
      using Cons.prems True by (auto simp: nth_append) 
    from Cons.IH[OF a b c d e] True show ?thesis by simp
  next
    case False
    have a: "length (ys @ [x]) = Suc i" using Cons.prems by simp
    have b: "b < Suc i" using Cons.prems by simp
    have c: "(ys @ [x]) ! b = m" using Cons.prems by (simp add: nth_append)
    have d: "\<forall>j<Suc i. (ys @ [x]) ! j \<le> m"
      using Cons.prems False by (auto simp: nth_append less_Suc_eq)
    have e: "\<forall>j<b. (ys @ [x]) ! j < m"
      using Cons.prems by (auto simp: nth_append)
    from Cons.IH[OF a b c d e] False show ?thesis by simp
  qed
qed

lemma np_argmax_spec:
  assumes "np_argmax xs = Inr k"
  shows "k < length xs \<and> (\<forall>j<length xs. xs ! j \<le> xs ! k) \<and> (\<forall>j<k. xs ! j < xs ! k)"
proof (cases xs)
  case Nil
  with assms show ?thesis by (simp add: np_argmax_def)
next
  case (Cons x rest)
  with assms have k: "k = argmax_from rest 1 0 x" by (simp add: np_argmax_def)
  have "argmax_from rest 1 0 x < 1 + length rest
     \<and> (\<forall>j<1 + length rest. ([x] @ rest) ! j \<le> ([x] @ rest) ! argmax_from rest 1 0 x)
     \<and> (\<forall>j<argmax_from rest 1 0 x. ([x] @ rest) ! j < ([x] @ rest) ! argmax_from rest 1 0 x)"
    by (rule argmax_from_spec) simp_all
  with k Cons show ?thesis by simp
qed

lemma np_argmax_nonempty: "xs \<noteq> [] \<Longrightarrow> \<exists>k. np_argmax xs = Inr k"
  by (cases xs) (simp_all add: np_argmax_def)

section \<open>Preprocessing and inference\<close>

lemma preprocess_image_eq:
  "preprocess_image env p w =
     (case preprocess_try env p of
        Inr img \<Rightarrow> (w\<lparr>trace := trace w @ [Imread p]\<rparr>, Some img)
      | Inl e \<Rightarrow> (w\<lparr>trace := trace w @ [Imread p,
           ShowError ''Image Error'' (''Failed to load '' @ p @ [nl] @ str_exn e)]\<rparr>, None))"
  by (simp add: preprocess_image_def log_def showerror_def split: sum.splits)

lemma predict_image_eq:
  "predict_image env p w = (w\<lparr>trace := trace w @ predict_events env p\<rparr>, prediction env p)"
  unfolding prediction_def predict_events_def predict_image_def preprocess_image_eq
  by (simp add: log_def world0_def Let_def split: sum.splits list.splits)


lemma preprocess_try_no_gray:
  assumes "cv2_imread env p = Some img" and "length (shape img) = 3" and "shape img ! 2 \<noteq> 1"
  shows "preprocess_try env p =
     (case cv2_resize env img (IMG_W env, IMG_H env) of
        Inl e \<Rightarrow> Inl e | Inr img2 \<Rightarrow> Inr (expand_dims0 (div255 img2)))"
  using assms by (simp add: preprocess_try_def is_gray_def)

text \<open>Claim C1 (every decodable image gives a tensor of shape (1, H, W, 3)) fails on the
  code for an image with an alpha channel: line 38 reads it with IMREAD_UNCHANGED as a
  grid of 4 channels, line 41 converts only grayscale grids, and when the resize keeps
  the channel count the tensor has shape (1, H, W, 4).\<close>

theorem preprocess_image_alpha_channel:
  assumes "cv2_imread env p = Some img"
    and "shape img = [h, w, 4]"
    and "cv2_resize env img (IMG_W env, IMG_H env) = Inr r"
    and "shape r = [IMG_H env, IMG_W env, 4]"
  shows "\<exists>t. snd (preprocess_image env p wd) = Some t
           \<and> shape t = [1, IMG_H env, IMG_W env, 4]
           \<and> shape t \<noteq> [1, IMG_H env, IMG_W env, 3]"
proof -
  have "preprocess_try env p = Inr (expand_dims0 (div255 r))"
    using assms by (simp add: preprocess_try_no_gray)
  then show ?thesis
    using assms(4) by (simp add: preprocess_image_eq expand_dims0_def div255_def)
qed

lemma env0_rgba_resize:
  "cv2_resize env0 \<lparr>shape = [1, 1, 4], data = [10, 20, 30, 255]\<rparr> (IMG_W env0, IMG_H env0)
     = Inr \<lparr>shape = [2, 2, 4],
            data = [10, 20, 30, 255, 10, 20, 30, 255, 10, 20, 30, 255, 10, 20, 30, 255]\<rparr>"
  by code_simp

text \<open>The test environment's file with an alpha channel gives a tensor of shape
  (1, 2, 2, 4).\<close>

theorem preprocess_image_alpha_channel_witness:
  "snd (preprocess_image env0 ''rgba.png'' world0) =
     Some \<lparr>shape = [1, 2, 2, 4],
           data = [2 / 51, 4 / 51, 2 / 17, 1, 2 / 51, 4 / 51, 2 / 17, 1,
                   2 / 51, 4 / 51, 2 / 17, 1, 2 / 51, 4 / 51, 2 / 17, 1]\<rparr>
   \<and> (\<exists>t. snd (preprocess_image env0 ''rgba.png'' world0) = Some t \<and> shape t = [1, 2, 2, 4])"
proof -
  have a: "cv2_imread env0 ''rgba.png'' = Some \<lparr>shape = [1, 1, 4], data = [10, 20, 30, 255]\<rparr>"
    by code_simp
  have b: "shape \<lparr>shape = [1, 1, 4], data = [10, 20, 30, 255]\<rparr> = [1, 1, 4]"
    by simp
  have c: "shape \<lparr>shape = [2, 2, 4],
            data = [10, 20, 30, 255, 10, 20, 30, 255, 10, 20, 30, 255, 10, 20, 30, 255]\<rparr>
       = [IMG_H env0, IMG_W env0, 4]"
    by (simp add: env0_def)
  have d: "snd (preprocess_image env0 ''rgba.png'' world0) =
     Some \<lparr>shape = [1, 2, 2, 4],
           data = [2 / 51, 4 / 51, 2 / 17, 1, 2 / 51, 4 / 51, 2 / 17, 1,
                   2 / 51, 4 / 51, 2 / 17, 1, 2 / 51, 4 / 51, 2 / 17, 1]\<rparr>"
    by code_simp
  from preprocess_image_alpha_channel [OF a b env0_rgba_resize c, of world0] d
  show ?thesis by (simp add: env0_def)
qed

text \<open>What does hold of preprocessing: a grid that is 2-dimensional or has 1 or 3 channels
  gives shape (1, H, W, 3) when the resize keeps the channel count, and samples between 0
  and 255 after the resize give values between 0 and 1.\<close>

lemma preprocess_try_three_channels:
  assumes "cv2_imread env p = Some img"
    and "shape img = [h, w] \<or> shape img = [h, w, 1] \<or> shape img = [h, w, 3]"
    and "\<And>a d r. cv2_resize env a d = Inr r \<Longrightarrow> shape r = [snd d, fst d] @ drop 2 (shape a)"
    and "preprocess_try env p = Inr t"
  shows "shape t = [1, IMG_H env, IMG_W env, 3]"
proof -
  from assms(2) obtain a where
    a: "(if length (shape img) = 2 \<or> shape img ! 2 = 1 then cvtColor_GRAY2RGB img else Inr img)
          = Inr a"
    and sa: "drop 2 (shape a) = [3]"
    by (auto simp: cvtColor_GRAY2RGB_def)
  from assms(2) have g: "is_gray img = Inr (length (shape img) = 2 \<or> shape img ! 2 = 1)"
    by (auto simp: is_gray_def)
  from assms(1,4) g a obtain r where
    r: "cv2_resize env a (IMG_W env, IMG_H env) = Inr r" and t: "t = expand_dims0 (div255 r)"
    by (auto simp: preprocess_try_def split: sum.splits if_splits)
  from assms(3) [OF r] sa have "shape r = [IMG_H env, IMG_W env, 3]" by simp
  with t show ?thesis by (simp add: expand_dims0_def div255_def)
qed

lemma div255_unit_range:
  assumes "\<forall>v\<in>set (data r). 0 \<le> v \<and> v \<le> 255"
  shows "\<forall>v\<in>set (data (expand_dims0 (div255 r))). 0 \<le> v \<and> v \<le> 1"
  using assms by (auto simp: expand_dims0_def div255_def)


text \<open>Claim C2: when preprocessing succeeds and the model returns a vector of 4
  probabilities, \<open>predict_image\<close> returns the label at the position of the largest
  value, the first such position on a tie, together with that value times 100; the label
  is one of the 4 class names and the confidence lies between 0 and 100.\<close>

theorem predict_image_first_max:
  assumes "preprocess_try env p = Inr t"
    and "model_predict env t = Inr (preds # others)"
    and "length preds = 4"
    and "\<forall>v\<in>set preds. 0 \<le> v \<and> v \<le> 1"
  shows "\<exists>k. snd (predict_image env p w) = Inr (Some (CLASS_NAMES ! k), Some (preds ! k * 100))
           \<and> k < 4 \<and> (\<forall>j<4. preds ! j \<le> preds ! k) \<and> (\<forall>j<k. preds ! j < preds ! k)
           \<and> CLASS_NAMES ! k \<in> set CLASS_NAMES
           \<and> 0 \<le> preds ! k * 100 \<and> preds ! k * 100 \<le> 100"
proof -
  from assms(3) have "preds \<noteq> []" by auto
  then obtain k where k: "np_argmax preds = Inr k"
    using np_argmax_nonempty by blast
  from np_argmax_spec [OF k] assms(3)
  have k4: "k < 4" and mx: "\<forall>j<4. preds ! j \<le> preds ! k" and first: "\<forall>j<k. preds ! j < preds ! k"
    by simp_all
  have len: "length CLASS_NAMES = 4" by (simp add: CLASS_NAMES_def)
  have res: "snd (predict_image env p w) = Inr (Some (CLASS_NAMES ! k), Some (preds ! k * 100))"
    using assms(1,2) k k4 by (simp add: predict_image_def preprocess_image_eq Let_def len)
  have "preds ! k \<in> set preds" using k4 assms(3) by simp
  with assms(4) have rng: "0 \<le> preds ! k \<and> preds ! k \<le> 1" by blast
  have mem: "CLASS_NAMES ! k \<in> set CLASS_NAMES" using k4 len by simp
  from res k4 mx first mem rng show ?thesis by auto
qed

text \<open>In the test environment the model answers (0.1, 0.4, 0.4, 0.1) for a.png: positions 1
  and 2 tie and the lower one, TB, is returned with confidence 40.\<close>

theorem predict_image_first_max_witness:
  "snd (predict_image env0 ''a.png'' world0) = Inr (Some ''TB'', Some 40)
   \<and> [1/10, 2/5, 2/5, 1/10 :: real] ! 1 = [1/10, 2/5, 2/5, 1/10] ! 2"
proof -
  let ?t = "\<lparr>shape = [1, 2, 2, 3],
     data = [0, 128 / 255, 1, 0, 128 / 255, 1, 0, 128 / 255, 1, 0, 128 / 255, 1]\<rparr>"
  let ?preds = "[1/10, 2/5, 2/5, 1/10 :: real]"
  have a: "preprocess_try env0 ''a.png'' = Inr ?t" by code_simp
  have b: "model_predict env0 ?t = Inr (?preds # [])" by code_simp
  have c: "length ?preds = 4" by simp
  have d: "\<forall>v\<in>set ?preds. 0 \<le> v \<and> v \<le> 1" by simp
  from predict_image_first_max [OF a b c d, of world0]
  obtain k where r: "snd (predict_image env0 ''a.png'' world0)
        = Inr (Some (CLASS_NAMES ! k), Some (?preds ! k * 100))"
    and k4: "k < 4" and first: "\<forall>j<k. ?preds ! j < ?preds ! k"
    and mx: "\<forall>j<4. ?preds ! j \<le> ?preds ! k"
    by blast
  from k4 consider "k = 0" | "k = 1" | "k = 2" | "k = 3" by linarith
  then have "k = 1"
  proof cases
    case 1
    with mx [rule_format, of 1] show ?thesis by simp
  next
    case 2
    then show ?thesis .
  next
    case 3
    with first [rule_format, of 1] show ?thesis by simp
  next
    case 4
    with first [rule_format, of 1] show ?thesis by simp
  qed
  with r show ?thesis by (simp add: CLASS_NAMES_def)
qed

text \<open>Claim C9: when preprocessing fails, \<open>predict_image\<close> returns (None, None); the
  batch loop body and the single-image handler take their failure branch whenever the
  first component is None, whatever the second is, and the batch loop goes on to the
  next file.\<close>

theorem predict_image_none_pair:
  assumes "preprocess_try env p = Inl e"
  shows "snd (predict_image env p w) = Inr (None, None)
       \<and> (\<forall>c i s. batch_body env i p (None, c) s = (s, None))
       \<and> (\<forall>c w'. upload_show env p (None, c) w' = (w', None))
       \<and> batch_loop env i (p # rest) (w, res)
           = batch_loop env (Suc i) rest (fst (predict_image env p w), res)"
  using assms
  by (simp add: predict_image_def preprocess_image_eq batch_body_def upload_show_def
      upload_predict_single_def)

text \<open>A file that does not decode in the test environment.\<close>

theorem predict_image_none_pair_witness:
  "snd (predict_image env0 ''bad.png'' world0) = Inr (None, None)
   \<and> batch_body env0 1 ''bad.png'' (None, Some 3) (world0, []) = ((world0, []), None)
   \<and> upload_show env0 ''bad.png'' (None, Some 3) world0 = (world0, None)"
proof -
  have a: "preprocess_try env0 ''bad.png'' = Inl (ValueError ''Cannot read image'')"
    by code_simp
  from predict_image_none_pair [OF a, of world0 1 "[]" "[]"]
  show ?thesis by simp
qed

section \<open>The batch loop\<close>

lemma predict_events_cases:
  "(\<exists>e. predict_events env p =
       [Imread p, ShowError ''Image Error'' (''Failed to load '' @ p @ [nl] @ str_exn e)])
   \<or> predict_events env p = [Imread p, Predict]"
  unfolding predict_events_def predict_image_def preprocess_image_eq
  by (auto simp: log_def world0_def Let_def split: sum.splits list.splits)

lemma predict_events_no_write: "\<not> list_ex is_WriteCsv (predict_events env p)"
  using predict_events_cases [of env p] by auto

lemma batch_body_skip: "batch_body env i p (None, c) s = (s, None)"
  by (simp add: batch_body_def)

lemma batch_body_in_range:
  assumes "i - 1 \<le> length (listbox w)"
  shows "batch_body env i p (Some l, Some c) (w, res) =
     ((w\<lparr>listbox := (listbox w @
            [(os_path_basename env p @ '' '' @ arrow @ '' '' @ l @ '' ('' @ format_2f env c @ ''%)'',
              None)])
          [i - 1 := (fst ((listbox w @
            [(os_path_basename env p @ '' '' @ arrow @ '' '' @ l @ '' ('' @ format_2f env c @ ''%)'',
              None)]) ! (i - 1)), Some (dict_get CLASS_COLORS l ''black''))],
         progress_value := i\<rparr>,
       res @ [[os_path_basename env p, l, format_2f env c @ ''%'']]), None)"
  using assms
  by (simp add: batch_body_def py_format_2f_def listbox_itemconfig_def listbox_insert_END_def
      Let_def)

lemma batch_body_out_of_range:
  assumes "length (listbox w) < i - 1"
  shows "batch_body env i p (Some l, Some c) (w, res) =
     ((w\<lparr>listbox := listbox w @
            [(os_path_basename env p @ '' '' @ arrow @ '' '' @ l @ '' ('' @ format_2f env c @ ''%)'',
              None)]\<rparr>,
       res @ [[os_path_basename env p, l, format_2f env c @ ''%'']]),
      Some (TclError ''item number out of range''))"
  using assms
  by (simp add: batch_body_def py_format_2f_def listbox_itemconfig_def listbox_insert_END_def
      Let_def)

text \<open>What one call of the loop body leaves unchanged, and what it may do to the
  progress value and the list.\<close>

lemma batch_body_frame:
  assumes "batch_body env i p r (w, res) = ((w', res'), out)"
  shows "trace w' = trace w \<and> progress_maximum w' = progress_maximum w
       \<and> dirs w' = dirs w \<and> files w' = files w
       \<and> (progress_value w' = progress_value w \<or> progress_value w' = i)"
  using assms
  by (auto simp: batch_body_def py_format_2f_def listbox_itemconfig_def listbox_insert_END_def
      Let_def split: option.splits if_splits)

lemma batch_loop_step:
  "batch_loop env i (p # rest) (w, res) =
     (case prediction env p of
        Inl e \<Rightarrow> ((w\<lparr>trace := trace w @ predict_events env p\<rparr>, res), Some e)
      | Inr r \<Rightarrow>
          (case batch_body env i p r (w\<lparr>trace := trace w @ predict_events env p\<rparr>, res) of
             (s2, Some e) \<Rightarrow> (s2, Some e)
           | (s2, None) \<Rightarrow> batch_loop env (Suc i) rest s2))"
  by (simp add: predict_image_eq)

lemma batch_loop_frame:
  assumes "batch_loop env i ps (w, res) = ((w', res'), out)"
  shows "progress_maximum w' = progress_maximum w \<and> dirs w' = dirs w \<and> files w' = files w
       \<and> (\<exists>evs. trace w' = trace w @ evs \<and> \<not> list_ex is_WriteCsv evs)"
  using assms
proof (induction ps arbitrary: i w res)
  case Nil
  then show ?case by simp
next
  case (Cons p ps)
  let ?w1 = "w\<lparr>trace := trace w @ predict_events env p\<rparr>"
  show ?case
  proof (cases "prediction env p")
    case (Inl e)
    with Cons.prems have "w' = ?w1" by (simp add: batch_loop_step del: batch_loop.simps)
    then show ?thesis using predict_events_no_write [of env p] by auto
  next
    case (Inr r)
    obtain w2 res2 out2 where b: "batch_body env i p r (?w1, res) = ((w2, res2), out2)"
      by (metis prod.exhaust)
    from batch_body_frame [OF b]
    have f: "trace w2 = trace w @ predict_events env p"
      "progress_maximum w2 = progress_maximum w" "dirs w2 = dirs w" "files w2 = files w"
      by simp_all
    show ?thesis
    proof (cases out2)
      case (Some e)
      with Cons.prems Inr b have "w' = w2" by (simp add: batch_loop_step del: batch_loop.simps)
      with f show ?thesis using predict_events_no_write [of env p] by auto
    next
      case None
      with Cons.prems Inr b
      have "batch_loop env (Suc i) ps (w2, res2) = ((w', res'), out)"
        by (simp add: batch_loop_step del: batch_loop.simps)
      from Cons.IH [OF this] obtain evs where
        "progress_maximum w' = progress_maximum w2" "dirs w' = dirs w2" "files w' = files w2"
        "trace w' = trace w2 @ evs" "\<not> list_ex is_WriteCsv evs"
        by blast
      with f have "progress_maximum w' = progress_maximum w" "dirs w' = dirs w"
        "files w' = files w"
        "trace w' = trace w @ (predict_events env p @ evs)"
        "\<not> list_ex is_WriteCsv (predict_events env p @ evs)"
        using predict_events_no_write [of env p] by simp_all
      then show ?thesis by blast
    qed
  qed
qed

lemma batch_loop_progress:
  assumes "batch_loop env i ps (w, res) = ((w', res'), out)" and "progress_value w < i"
  shows "progress_value w' < i + length ps"
  using assms
proof (induction ps arbitrary: i w res)
  case Nil
  then show ?case by simp
next
  case (Cons p ps)
  let ?w1 = "w\<lparr>trace := trace w @ predict_events env p\<rparr>"
  show ?case
  proof (cases "prediction env p")
    case (Inl e)
    with Cons.prems have "w' = ?w1" by (simp add: batch_loop_step del: batch_loop.simps)
    then show ?thesis using Cons.prems(2) by simp
  next
    case (Inr r)
    obtain w2 res2 out2 where b: "batch_body env i p r (?w1, res) = ((w2, res2), out2)"
      by (metis prod.exhaust)
    from batch_body_frame [OF b] Cons.prems(2)
    have f: "progress_value w2 < Suc i" by auto
    show ?thesis
    proof (cases out2)
      case (Some e)
      with Cons.prems Inr b have "w' = w2" by (simp add: batch_loop_step del: batch_loop.simps)
      with f show ?thesis by simp
    next
      case None
      with Cons.prems Inr b
      have "batch_loop env (Suc i) ps (w2, res2) = ((w', res'), out)"
        by (simp add: batch_loop_step del: batch_loop.simps)
      from Cons.IH [OF this f] show ?thesis by simp
    qed
  qed
qed

lemma batch_loop_append:
  "batch_loop env i (qs @ rs) s =
     (case batch_loop env i qs s of
        (s1, Some e) \<Rightarrow> (s1, Some e)
      | (s1, None) \<Rightarrow> batch_loop env (i + length qs) rs s1)"
proof (induction qs arbitrary: i s)
  case Nil
  then show ?case by simp
next
  case (Cons q qs)
  show ?case
    by (cases s)
      (simp add: batch_loop_step Cons.IH del: batch_loop.simps
        split: sum.splits prod.splits option.splits)
qed

lemma batch_loop_all_ok:
  assumes "\<forall>p\<in>set ps. \<exists>l c. prediction env p = Inr (Some l, Some c)"
    and "i - 1 \<le> length (listbox w)"
  shows "\<exists>w' res'. batch_loop env i ps (w, res) = ((w', res'), None)
           \<and> length (listbox w') = length (listbox w) + length ps"
  using assms
proof (induction ps arbitrary: i w res)
  case Nil
  then show ?case by simp
next
  case (Cons p ps)
  let ?w1 = "w\<lparr>trace := trace w @ predict_events env p\<rparr>"
  from Cons.prems(1) obtain l c where lc: "prediction env p = Inr (Some l, Some c)"
    by auto
  have rng: "i - 1 \<le> length (listbox ?w1)" using Cons.prems(2) by simp
  obtain w2 res2 where
    b: "batch_body env i p (Some l, Some c) (?w1, res) = ((w2, res2), None)"
    and len: "length (listbox w2) = Suc (length (listbox w))"
    using batch_body_in_range [OF rng, of env p l c res] by simp
  have step: "batch_loop env i (p # ps) (w, res) = batch_loop env (Suc i) ps (w2, res2)"
    using lc b by (simp add: batch_loop_step del: batch_loop.simps)
  have "Suc i - 1 \<le> length (listbox w2)" using len Cons.prems(2) by simp
  with Cons.IH [of "Suc i" w2 res2] Cons.prems(1)
  obtain w' res' where "batch_loop env (Suc i) ps (w2, res2) = ((w', res'), None)"
    "length (listbox w') = length (listbox w2) + length ps"
    by auto
  with step len show ?case by simp
qed

lemma batch_loop_all_skipped:
  assumes "\<forall>p\<in>set ps. \<exists>c. prediction env p = Inr (None, c)"
  shows "\<exists>w'. batch_loop env i ps (w, res) = ((w', res), None)
           \<and> listbox w' = listbox w \<and> progress_value w' = progress_value w"
  using assms
proof (induction ps arbitrary: i w)
  case Nil
  then show ?case by simp
next
  case (Cons p ps)
  let ?w1 = "w\<lparr>trace := trace w @ predict_events env p\<rparr>"
  from Cons.prems obtain c where c: "prediction env p = Inr (None, c)" by auto
  have step: "batch_loop env i (p # ps) (w, res) = batch_loop env (Suc i) ps (?w1, res)"
    using c by (simp add: batch_loop_step batch_body_skip del: batch_loop.simps)
  from Cons.IH [of "Suc i" ?w1] Cons.prems
  obtain w' where "batch_loop env (Suc i) ps (?w1, res) = ((w', res), None)"
    "listbox w' = listbox ?w1" "progress_value w' = progress_value ?w1"
    by auto
  with step show ?case by simp
qed

lemma batch_loop_fail_then_success:
  assumes ok: "\<forall>p\<in>set pre. \<exists>l c. prediction env p = Inr (Some l, Some c)"
    and bad: "\<forall>p\<in>set bads. \<exists>c. prediction env p = Inr (None, c)"
    and ne: "bads \<noteq> []"
    and g: "prediction env g = Inr (Some l, Some c)"
    and empty: "listbox w = []"
  shows "\<exists>w' res'. batch_loop env 1 (pre @ bads @ g # rest) (w, res)
             = ((w', res'), Some (TclError ''item number out of range''))
           \<and> length (listbox w') = Suc (length pre)"
proof -
  from batch_loop_all_ok [OF ok, of 1 w res] empty
  obtain w1 res1 where
    r1: "batch_loop env 1 pre (w, res) = ((w1, res1), None)"
    and l1: "length (listbox w1) = length pre"
    by auto
  from batch_loop_all_skipped [OF bad, of "1 + length pre" w1 res1]
  obtain w2 where
    r2: "batch_loop env (1 + length pre) bads (w1, res1) = ((w2, res1), None)"
    and l2: "listbox w2 = listbox w1"
    by auto
  let ?i = "1 + length pre + length bads"
  let ?w3 = "w2\<lparr>trace := trace w2 @ predict_events env g\<rparr>"
  have "0 < length bads" using ne by simp
  then have oor: "length (listbox ?w3) < ?i - 1" using l1 l2 by simp
  have r3: "batch_loop env ?i (g # rest) (w2, res1) =
     (fst (batch_body env ?i g (Some l, Some c) (?w3, res1)),
      Some (TclError ''item number out of range''))"
    using g batch_body_out_of_range [OF oor, of env g l c res1]
    by (simp add: batch_loop_step del: batch_loop.simps)
  have l3: "length (listbox (fst (fst (batch_body env ?i g (Some l, Some c) (?w3, res1)))))
      = Suc (length pre)"
    using batch_body_out_of_range [OF oor, of env g l c res1] l1 l2 by simp
  have "batch_loop env 1 (pre @ bads @ g # rest) (w, res) =
     (fst (batch_body env ?i g (Some l, Some c) (?w3, res1)),
      Some (TclError ''item number out of range''))"
    using r1 r2 r3 by (simp add: batch_loop_append del: batch_loop.simps)
  with l3 show ?thesis
    by (metis prod.collapse)
qed

text \<open>Claim C10: the colour of the entry for the \<open>i\<close>-th submitted file is set at index
  \<open>i - 1\<close>, while the list holds one entry per successful file. So when files that all
  succeed are followed by one or more that fail and then by one that succeeds, the list
  holds one entry per success and the index used for the last one is at least the number
  of entries: \<open>itemconfig\<close> is asked for an entry that does not exist.\<close>

theorem batch_item_index_out_of_range:
  assumes "\<forall>p\<in>set pre. \<exists>l c. prediction env p = Inr (Some l, Some c)"
    and "\<forall>p\<in>set bads. \<exists>c. prediction env p = Inr (None, c)"
    and "bads \<noteq> []"
    and "prediction env g = Inr (Some l, Some c)"
    and "listbox w = []"
  shows "\<exists>w' res' e. batch_loop env 1 (pre @ bads @ g # rest) (w, []) = ((w', res'), Some e)
           \<and> length (listbox w') = length pre + 1
           \<and> length (listbox w') \<le> length (pre @ bads @ [g]) - 1
           \<and> listbox_itemconfig (length (pre @ bads @ [g]) - 1)
                (dict_get CLASS_COLORS l ''black'') w' = Inl e"
proof -
  from batch_loop_fail_then_success [OF assms, of rest "[]"]
  obtain w' res' where
    r: "batch_loop env 1 (pre @ bads @ g # rest) (w, [])
          = ((w', res'), Some (TclError ''item number out of range''))"
    and len: "length (listbox w') = Suc (length pre)"
    by blast
  have nb: "Suc 0 \<le> length bads" using assms(3) by (cases bads) simp_all
  have "length (pre @ bads @ [g]) - 1 = length pre + length bads" by simp
  with len nb have le: "length (listbox w') \<le> length (pre @ bads @ [g]) - 1" by linarith
  then have "listbox_itemconfig (length (pre @ bads @ [g]) - 1)
      (dict_get CLASS_COLORS l ''black'') w' = Inl (TclError ''item number out of range'')"
    by (simp add: listbox_itemconfig_def)
  with r len le show ?thesis by simp
qed

lemma batch_predict_unfold:
  assumes "file_paths \<noteq> []"
  shows "batch_predict env file_paths w =
     (case batch_loop env 1 file_paths
             (w\<lparr>progress_value := 0, progress_maximum := length file_paths, listbox := [],
                 dirs := insert (save_folder env) (dirs w),
                 trace := trace w @ [Makedirs (save_folder env), Now]\<rparr>, []) of
        ((w4, results), Some e) \<Rightarrow> (w4, Some e)
      | ((w4, results), None) \<Rightarrow>
          (w4\<lparr>files := (files w4)
                 (os_path_join env (save_folder env)
                    (csv_name (strftime (datetime_now env (Suc (length (trace w))))))
                  \<mapsto> [''Image'', ''Prediction'', ''Confidence''] # results),
               trace := trace w4 @
                 [WriteCsv (os_path_join env (save_folder env)
                     (csv_name (strftime (datetime_now env (Suc (length (trace w)))))))
                    ([''Image'', ''Prediction'', ''Confidence''] # results),
                  ShowInfo ''Batch Prediction''
                    (''Predictions completed!'' @ [nl] @ ''Saved to: '' @
                     os_path_join env (save_folder env)
                       (csv_name (strftime (datetime_now env (Suc (length (trace w)))))))]\<rparr>,
           None))"
  using assms
  by (simp add: batch_predict_def makedirs_def log_def showinfo_def write_csv_def Let_def
      split: prod.splits option.splits)

text \<open>Claim C6 (the report is written once, with one row per successful file) fails on the
  code when a file that succeeds comes after one that failed: the call of line 105
  raises TclError, the exception leaves \<open>batch_predict\<close> before line 108, and
  no report is written.\<close>

theorem batch_predict_no_report_after_failure:
  assumes "\<forall>p\<in>set pre. \<exists>l c. prediction env p = Inr (Some l, Some c)"
    and "\<forall>p\<in>set bads. \<exists>c. prediction env p = Inr (None, c)"
    and "bads \<noteq> []"
    and "prediction env g = Inr (Some l, Some c)"
  shows "\<exists>w'. batch_predict env (pre @ bads @ g # rest) w
             = (w', Some (TclError ''item number out of range''))
           \<and> files w' = files w
           \<and> \<not> list_ex is_WriteCsv (drop (length (trace w)) (trace w'))"
proof -
  let ?w3 = "w\<lparr>progress_value := 0, progress_maximum := length (pre @ bads @ g # rest),
      listbox := [], dirs := insert (save_folder env) (dirs w),
      trace := trace w @ [Makedirs (save_folder env), Now]\<rparr>"
  have e: "listbox ?w3 = []" by simp
  from batch_loop_fail_then_success [OF assms e, of rest "[]"]
  obtain w' res' where
    r: "batch_loop env 1 (pre @ bads @ g # rest) (?w3, [])
          = ((w', res'), Some (TclError ''item number out of range''))"
    by blast
  from batch_loop_frame [OF r] obtain evs where
    f: "files w' = files w" and t: "trace w' = trace w @ [Makedirs (save_folder env), Now] @ evs"
    and nw: "\<not> list_ex is_WriteCsv evs"
    by auto
  have "batch_predict env (pre @ bads @ g # rest) w
      = (w', Some (TclError ''item number out of range''))"
    using r by (simp add: batch_predict_unfold del: batch_loop.simps)
  with f t nw show ?thesis by simp
qed

lemma batch_loop_all_ok_rows:
  assumes "\<forall>p\<in>set ps. \<exists>l c. prediction env p = Inr (Some l, Some c)"
    and "i - 1 \<le> length (listbox w)"
  shows "\<exists>w'. batch_loop env i ps (w, res) = ((w', res @ map (report_row env) ps), None)
           \<and> length (listbox w') = length (listbox w) + length ps"
  using assms
proof (induction ps arbitrary: i w res)
  case Nil
  then show ?case by simp
next
  case (Cons p ps)
  let ?w1 = "w\<lparr>trace := trace w @ predict_events env p\<rparr>"
  from Cons.prems(1) obtain l c where lc: "prediction env p = Inr (Some l, Some c)"
    by auto
  then have row: "report_row env p = [os_path_basename env p, l, format_2f env c @ ''%'']"
    by (simp add: report_row_def)
  have rng: "i - 1 \<le> length (listbox ?w1)" using Cons.prems(2) by simp
  obtain w2 where
    b: "batch_body env i p (Some l, Some c) (?w1, res) = ((w2, res @ [report_row env p]), None)"
    and len: "length (listbox w2) = Suc (length (listbox w))"
    using batch_body_in_range [OF rng, of env p l c res] row by simp
  have step: "batch_loop env i (p # ps) (w, res)
      = batch_loop env (Suc i) ps (w2, res @ [report_row env p])"
    using lc b by (simp add: batch_loop_step del: batch_loop.simps)
  have "Suc i - 1 \<le> length (listbox w2)" using len Cons.prems(2) by simp
  with Cons.IH [of "Suc i" w2 "res @ [report_row env p]"] Cons.prems(1)
  obtain w' where
    "batch_loop env (Suc i) ps (w2, res @ [report_row env p])
       = ((w', (res @ [report_row env p]) @ map (report_row env) ps), None)"
    "length (listbox w') = length (listbox w2) + length ps"
    by auto
  with step len show ?case by simp
qed

text \<open>What does hold of the report: when every file that succeeds comes before every file
  that fails to preprocess, the run ends normally, the report is written once, after the
  loop, and it holds the header and one row per successful file in submission order; with
  no successful file it holds the header alone.\<close>

lemma batch_predict_report_failures_last:
  assumes ok: "\<forall>p\<in>set pre. \<exists>l c. prediction env p = Inr (Some l, Some c)"
    and bad: "\<forall>p\<in>set bads. \<exists>c. prediction env p = Inr (None, c)"
    and ne: "pre @ bads \<noteq> []"
  shows "\<exists>w' evs. batch_predict env (pre @ bads) w = (w', None)
           \<and> trace w' = trace w @ [Makedirs (save_folder env), Now] @ evs @
               [WriteCsv (os_path_join env (save_folder env)
                   (csv_name (strftime (datetime_now env (Suc (length (trace w)))))))
                  ([''Image'', ''Prediction'', ''Confidence''] # map (report_row env) pre),
                ShowInfo ''Batch Prediction''
                  (''Predictions completed!'' @ [nl] @ ''Saved to: '' @
                   os_path_join env (save_folder env)
                     (csv_name (strftime (datetime_now env (Suc (length (trace w)))))))]
           \<and> \<not> list_ex is_WriteCsv evs
           \<and> files w' (os_path_join env (save_folder env)
                 (csv_name (strftime (datetime_now env (Suc (length (trace w)))))))
               = Some ([''Image'', ''Prediction'', ''Confidence''] # map (report_row env) pre)"
proof -
  let ?w3 = "w\<lparr>progress_value := 0, progress_maximum := length (pre @ bads),
      listbox := [], dirs := insert (save_folder env) (dirs w),
      trace := trace w @ [Makedirs (save_folder env), Now]\<rparr>"
  from batch_loop_all_ok_rows [OF ok, of 1 ?w3 "[]"]
  obtain w1 where
    r1: "batch_loop env 1 pre (?w3, []) = ((w1, map (report_row env) pre), None)"
    by auto
  from batch_loop_all_skipped [OF bad, of "1 + length pre" w1 "map (report_row env) pre"]
  obtain w2 where
    r2: "batch_loop env (1 + length pre) bads (w1, map (report_row env) pre)
           = ((w2, map (report_row env) pre), None)"
    by auto
  have r: "batch_loop env 1 (pre @ bads) (?w3, []) = ((w2, map (report_row env) pre), None)"
    using r1 r2 by (simp add: batch_loop_append del: batch_loop.simps)
  from batch_loop_frame [OF r] obtain evs where
    t: "trace w2 = trace w @ [Makedirs (save_folder env), Now] @ evs"
    and nw: "\<not> list_ex is_WriteCsv evs"
    by auto
  show ?thesis
    using r t nw ne by (simp add: batch_predict_unfold del: batch_loop.simps)
qed

lemma batch_body_listbox:
  assumes "batch_body env i p r (w, res) = ((w', res'), out)"
  shows "length (listbox w') \<le> Suc (length (listbox w))"
  using assms
  by (auto simp: batch_body_def py_format_2f_def listbox_itemconfig_def listbox_insert_END_def
      Let_def split: option.splits if_splits)

lemma batch_loop_listbox:
  assumes "batch_loop env i ps (w, res) = ((w', res'), out)" and "length (listbox w) < i"
  shows "length (listbox w') < i + length ps"
  using assms
proof (induction ps arbitrary: i w res)
  case Nil
  then show ?case by simp
next
  case (Cons p ps)
  let ?w1 = "w\<lparr>trace := trace w @ predict_events env p\<rparr>"
  show ?case
  proof (cases "prediction env p")
    case (Inl e)
    with Cons.prems have "w' = ?w1" by (simp add: batch_loop_step del: batch_loop.simps)
    then show ?thesis using Cons.prems(2) by simp
  next
    case (Inr r)
    obtain w2 res2 out2 where b: "batch_body env i p r (?w1, res) = ((w2, res2), out2)"
      by (metis prod.exhaust)
    from batch_body_listbox [OF b] Cons.prems(2)
    have f: "length (listbox w2) < Suc i" by simp
    show ?thesis
    proof (cases out2)
      case (Some e)
      with Cons.prems Inr b have "w' = w2" by (simp add: batch_loop_step del: batch_loop.simps)
      with f show ?thesis by simp
    next
      case None
      with Cons.prems Inr b
      have "batch_loop env (Suc i) ps (w2, res2) = ((w', res'), out)"
        by (simp add: batch_loop_step del: batch_loop.simps)
      from Cons.IH [OF this f] show ?thesis by simp
    qed
  qed
qed

text \<open>Once the list is shorter than the position in the submitted list, the body never
  reaches line 106 again.\<close>

lemma batch_body_behind:
  assumes "batch_body env i p r (w, res) = ((w', res'), out)"
    and "Suc (length (listbox w)) < i"
  shows "progress_value w' = progress_value w
       \<and> (out = None \<longrightarrow> listbox w' = listbox w)"
  using assms
  by (auto simp: batch_body_def py_format_2f_def listbox_itemconfig_def listbox_insert_END_def
      Let_def split: option.splits if_splits)

lemma batch_loop_behind:
  assumes "batch_loop env i ps (w, res) = ((w', res'), out)"
    and "Suc (length (listbox w)) < i"
  shows "progress_value w' = progress_value w"
  using assms
proof (induction ps arbitrary: i w res)
  case Nil
  then show ?case by simp
next
  case (Cons p ps)
  let ?w1 = "w\<lparr>trace := trace w @ predict_events env p\<rparr>"
  show ?case
  proof (cases "prediction env p")
    case (Inl e)
    with Cons.prems have "w' = ?w1" by (simp add: batch_loop_step del: batch_loop.simps)
    then show ?thesis by simp
  next
    case (Inr r)
    obtain w2 res2 out2 where b: "batch_body env i p r (?w1, res) = ((w2, res2), out2)"
      by (metis prod.exhaust)
    have "Suc (length (listbox ?w1)) < i" using Cons.prems(2) by simp
    from batch_body_behind [OF b this]
    have f: "progress_value w2 = progress_value w" "out2 = None \<longrightarrow> listbox w2 = listbox w"
      by simp_all
    show ?thesis
    proof (cases out2)
      case (Some e)
      with Cons.prems Inr b have "w' = w2" by (simp add: batch_loop_step del: batch_loop.simps)
      with f show ?thesis by simp
    next
      case None
      with Cons.prems Inr b
      have l: "batch_loop env (Suc i) ps (w2, res2) = ((w', res'), out)"
        by (simp add: batch_loop_step del: batch_loop.simps)
      from None f Cons.prems(2) have "Suc (length (listbox w2)) < Suc i" by simp
      from Cons.IH [OF l this] f show ?thesis by simp
    qed
  qed
qed


text \<open>Claim C3 (after the list is exhausted the progress indicator has reached its maximum,
  the number of files) fails on the code whenever a file of the batch fails
  preprocessing: line 102 skips the update of line 106 for it, and the files after it
  cannot make up for it, so the value ends below the maximum.\<close>

theorem batch_progress_short_of_maximum:
  assumes "p \<in> set file_paths"
    and "prediction env p = Inr (None, None)"
  shows "progress_value (fst (batch_predict env file_paths w))
           < progress_maximum (fst (batch_predict env file_paths w))
       \<and> progress_maximum (fst (batch_predict env file_paths w)) = length file_paths"
proof -
  from assms(1) obtain qs rest where split: "file_paths = qs @ p # rest"
    by (auto simp: in_set_conv_decomp)
  then have ne: "file_paths \<noteq> []" by simp
  let ?w3 = "w\<lparr>progress_value := 0, progress_maximum := length file_paths,
      listbox := [], dirs := insert (save_folder env) (dirs w),
      trace := trace w @ [Makedirs (save_folder env), Now]\<rparr>"
  obtain w1 res1 out1 where r1: "batch_loop env 1 qs (?w3, []) = ((w1, res1), out1)"
    by (metis prod.exhaust)
  obtain w4 res4 out4 where r4: "batch_loop env 1 file_paths (?w3, []) = ((w4, res4), out4)"
    by (metis prod.exhaust)
  from batch_loop_progress [OF r1] have p1: "progress_value w1 < 1 + length qs" by simp
  from batch_loop_listbox [OF r1] have l1: "length (listbox w1) < 1 + length qs" by simp
  from batch_loop_frame [OF r4] have m4: "progress_maximum w4 = length file_paths" by simp
  have p4: "progress_value w4 < length file_paths"
  proof (cases out1)
    case (Some e)
    with r1 r4 split have "w4 = w1"
      by (simp add: batch_loop_append del: batch_loop.simps)
    with p1 split show ?thesis by simp
  next
    case None
    let ?w2 = "w1\<lparr>trace := trace w1 @ predict_events env p\<rparr>"
    from None r1 r4 split assms(2)
    have r: "batch_loop env (Suc (1 + length qs)) rest (?w2, res1) = ((w4, res4), out4)"
      by (simp add: batch_loop_append batch_loop_step batch_body_skip del: batch_loop.simps)
    have "Suc (length (listbox ?w2)) < Suc (1 + length qs)" using l1 by simp
    from batch_loop_behind [OF r this] have "progress_value w4 = progress_value w1" by simp
    with p1 split show ?thesis by simp
  qed
  have v: "progress_value (fst (batch_predict env file_paths w)) = progress_value w4"
    and m: "progress_maximum (fst (batch_predict env file_paths w)) = progress_maximum w4"
    using r4 ne by (simp_all add: batch_predict_unfold del: batch_loop.simps
        split: option.splits)
  from v m p4 m4 show ?thesis by simp
qed


lemma env0_a_png: "prediction env0 ''a.png'' = Inr (Some ''TB'', Some 40)"
  unfolding prediction_def by code_simp

lemma env0_g_png: "prediction env0 ''g.png'' = Inr (Some ''COVID'', Some 50)"
  unfolding prediction_def by code_simp

lemma env0_bad_png: "prediction env0 ''bad.png'' = Inr (None, None)"
  unfolding prediction_def by code_simp

text \<open>One success, one failure, one success: the third file is coloured at index 2 in a list
  of 2 entries.\<close>

theorem batch_item_index_out_of_range_witness:
  "snd (batch_loop env0 1 [''a.png'', ''bad.png'', ''g.png''] (world0, []))
     = Some (TclError ''item number out of range'')
   \<and> length (listbox (fst (fst (batch_loop env0 1 [''a.png'', ''bad.png'', ''g.png'']
        (world0, []))))) = 2"
proof -
  have a: "\<forall>p\<in>set [''a.png'']. \<exists>l c. prediction env0 p = Inr (Some l, Some c)"
    by (simp add: env0_a_png)
  have b: "\<forall>p\<in>set [''bad.png'']. \<exists>c. prediction env0 p = Inr (None, c)"
    by (simp add: env0_bad_png)
  have c: "[''bad.png''] \<noteq> []" by simp
  have d: "listbox world0 = []" by (simp add: world0_def)
  from batch_item_index_out_of_range [OF a b c env0_g_png d, of "[]"]
  obtain w' res' e where
    r: "batch_loop env0 1 ([''a.png''] @ [''bad.png''] @ [''g.png'']) (world0, [])
          = ((w', res'), Some e)"
    and len: "length (listbox w') = 2"
    and cfg: "listbox_itemconfig (length ([''a.png''] @ [''bad.png''] @ [''g.png'']) - 1)
                (dict_get CLASS_COLORS ''COVID'' ''black'') w' = Inl e"
    by auto
  from cfg len have "e = TclError ''item number out of range''"
    by (simp add: listbox_itemconfig_def)
  with r len show ?thesis by simp
qed

text \<open>A file that fails to decode followed by one that is classified.\<close>

theorem batch_predict_no_report_after_failure_witness:
  "snd (batch_predict env0 [''bad.png'', ''a.png''] world0)
     = Some (TclError ''item number out of range'')
   \<and> files (fst (batch_predict env0 [''bad.png'', ''a.png''] world0)) = files world0"
proof -
  have a: "\<forall>p\<in>set []. \<exists>l c. prediction env0 p = Inr (Some l, Some c)" by simp
  have b: "\<forall>p\<in>set [''bad.png'']. \<exists>c. prediction env0 p = Inr (None, c)"
    by (simp add: env0_bad_png)
  have c: "[''bad.png''] \<noteq> []" by simp
  from batch_predict_no_report_after_failure [OF a b c env0_a_png, of "[]" world0]
  show ?thesis by auto
qed

text \<open>Two files, the second of which fails to decode: the value ends at 1, the maximum
  is 2.\<close>

theorem batch_progress_short_of_maximum_witness:
  "progress_value (fst (batch_predict env0 [''a.png'', ''bad.png''] world0)) = 1
   \<and> progress_maximum (fst (batch_predict env0 [''a.png'', ''bad.png''] world0)) = 2"
proof -
  have a: "''bad.png'' \<in> set [''a.png'', ''bad.png'']" by simp
  have v: "progress_value (fst (batch_predict env0 [''a.png'', ''bad.png''] world0)) = 1"
    by code_simp
  from batch_progress_short_of_maximum [OF a env0_bad_png, of world0] v
  show ?thesis by simp
qed

text \<open>Claim C4, as amended: a file that fails to decode is skipped by the batch loop, which
  goes on to the next file with the results unchanged, and the user is notified for each
  such file by the error dialog of line 48, in a batch run exactly as for a single
  image.\<close>

theorem decode_failure_notified_and_skipped:
  assumes "cv2_imread env p = None" and "p \<noteq> []"
  shows "predict_image env p w =
           (w\<lparr>trace := trace w @ [Imread p, ShowError ''Image Error''
                 (''Failed to load '' @ p @ [nl] @ ''Cannot read image'')]\<rparr>,
            Inr (None, None))
       \<and> batch_loop env i (p # rest) (w, res) =
           batch_loop env (Suc i) rest
             (w\<lparr>trace := trace w @ [Imread p, ShowError ''Image Error''
                 (''Failed to load '' @ p @ [nl] @ ''Cannot read image'')]\<rparr>, res)
       \<and> upload_predict_single env p w =
           (w\<lparr>trace := trace w @ [Imread p, ShowError ''Image Error''
                 (''Failed to load '' @ p @ [nl] @ ''Cannot read image'')]\<rparr>, None)"
proof -
  have t: "preprocess_try env p = Inl (ValueError ''Cannot read image'')"
    using assms(1) by (simp add: preprocess_try_def)
  have r: "predict_image env p w =
           (w\<lparr>trace := trace w @ [Imread p, ShowError ''Image Error''
                 (''Failed to load '' @ p @ [nl] @ ''Cannot read image'')]\<rparr>,
            Inr (None, None))"
    using t by (simp add: predict_image_def preprocess_image_eq)
  show ?thesis
    using assms(2) by (simp add: r batch_body_skip upload_predict_single_def upload_show_def)
qed

text \<open>A file that does not decode, in single mode and as the only file of a batch loop.\<close>

theorem decode_failure_notified_and_skipped_witness:
  "trace (fst (upload_predict_single env0 ''bad.png'' world0)) =
     [Imread ''bad.png'',
      ShowError ''Image Error'' (''Failed to load bad.png'' @ [nl] @ ''Cannot read image'')]
   \<and> batch_loop env0 1 [''bad.png''] (world0, []) =
       ((world0\<lparr>trace := [Imread ''bad.png'',
          ShowError ''Image Error''
            (''Failed to load bad.png'' @ [nl] @ ''Cannot read image'')]\<rparr>, []), None)"
proof -
  have a: "cv2_imread env0 ''bad.png'' = None" by code_simp
  have b: "''bad.png'' \<noteq> []" by simp
  from decode_failure_notified_and_skipped [OF a b, of world0 1 "[]" "[]"]
  show ?thesis by (simp add: world0_def del: batch_loop.simps(2))
qed

text \<open>Claim C4 as stated (no notification per failure in a batch run) is false: a batch
  run over one file that does not decode shows the error dialog for it.\<close>

theorem batch_decode_failure_shows_dialog:
  "trace (fst (batch_predict env0 [''bad.png''] world0)) =
     [Makedirs (save_folder env0), Now, Imread ''bad.png'',
      ShowError ''Image Error'' (''Failed to load bad.png'' @ [nl] @ ''Cannot read image''),
      WriteCsv (os_path_join env0 (save_folder env0) (csv_name ''20240517_093001''))
        [[''Image'', ''Prediction'', ''Confidence'']],
      ShowInfo ''Batch Prediction''
        (''Predictions completed!'' @ [nl] @ ''Saved to: '' @
         os_path_join env0 (save_folder env0) (csv_name ''20240517_093001''))]"
  by code_simp

text \<open>Claim C5, as amended: when the model raises for an image, \<open>predict_image\<close> returns no
  result and the exception leaves it uncaught (unlike a decode error, which is turned
  into (None, None)); in a batch run the exception leaves the loop and
  \<open>batch_predict\<close>, so the files after it are not processed and no report is written.\<close>

theorem inference_failure_aborts_batch:
  assumes "preprocess_try env p = Inr t" and "model_predict env t = Inl e"
  shows "predict_image env p w = (w\<lparr>trace := trace w @ [Imread p, Predict]\<rparr>, Inl e)
       \<and> batch_loop env i (p # rest) (w, res) =
           ((w\<lparr>trace := trace w @ [Imread p, Predict]\<rparr>, res), Some e)
       \<and> batch_predict env (p # rest) w =
           (w\<lparr>progress_value := 0, progress_maximum := Suc (length rest), listbox := [],
               dirs := insert (save_folder env) (dirs w),
               trace := trace w @ [Makedirs (save_folder env), Now, Imread p, Predict]\<rparr>,
            Some e)
       \<and> (\<exists>w' e'. batch_predict env (qs @ p # rest) w = (w', Some e')
             \<and> files w' = files w
             \<and> \<not> list_ex is_WriteCsv (drop (length (trace w)) (trace w')))"
proof -
  have r: "predict_image env p w = (w\<lparr>trace := trace w @ [Imread p, Predict]\<rparr>, Inl e)"
    for w
    using assms by (simp add: predict_image_def preprocess_image_eq log_def Let_def)
  have l: "batch_loop env i (p # rest) (w, res) =
           ((w\<lparr>trace := trace w @ [Imread p, Predict]\<rparr>, res), Some e)"
    for i w res
    by (simp add: r)
  have b: "batch_predict env (p # rest) w =
           (w\<lparr>progress_value := 0, progress_maximum := Suc (length rest), listbox := [],
               dirs := insert (save_folder env) (dirs w),
               trace := trace w @ [Makedirs (save_folder env), Now, Imread p, Predict]\<rparr>,
            Some e)"
    by (simp add: batch_predict_unfold l del: batch_loop.simps)
  let ?w3 = "w\<lparr>progress_value := 0, progress_maximum := length (qs @ p # rest),
      listbox := [], dirs := insert (save_folder env) (dirs w),
      trace := trace w @ [Makedirs (save_folder env), Now]\<rparr>"
  obtain w' res' out where full: "batch_loop env 1 (qs @ p # rest) (?w3, []) = ((w', res'), out)"
    by (metis prod.exhaust)
  have "out \<noteq> None"
    using full by (auto simp: batch_loop_append l simp del: batch_loop.simps
        split: prod.splits option.splits)
  then obtain e' where e': "out = Some e'" by auto
  from batch_loop_frame [OF full] obtain evs where
    f: "files w' = files w" and tr: "trace w' = trace w @ [Makedirs (save_folder env), Now] @ evs"
    and nw: "\<not> list_ex is_WriteCsv evs"
    by auto
  have "batch_predict env (qs @ p # rest) w = (w', Some e')"
    using full e' by (simp add: batch_predict_unfold del: batch_loop.simps)
  with f tr nw have "\<exists>w' e'. batch_predict env (qs @ p # rest) w = (w', Some e')
             \<and> files w' = files w
             \<and> \<not> list_ex is_WriteCsv (drop (length (trace w)) (trace w'))"
    by simp
  with r l b show ?thesis by simp
qed

text \<open>The model of the test environment raises for the 4-channel tensor of rgba.png; the
  batch run stops there.\<close>

theorem inference_failure_aborts_batch_witness:
  "snd (predict_image env0 ''rgba.png'' world0)
     = Inl (LibError ''input is incompatible with the layer'')
   \<and> trace (fst (batch_predict env0 [''rgba.png'', ''a.png''] world0)) =
       [Makedirs (save_folder env0), Now, Imread ''rgba.png'', Predict]"
proof -
  let ?t = "\<lparr>shape = [1, 2, 2, 4],
           data = [2 / 51, 4 / 51, 2 / 17, 1, 2 / 51, 4 / 51, 2 / 17, 1,
                   2 / 51, 4 / 51, 2 / 17, 1, 2 / 51, 4 / 51, 2 / 17, 1]\<rparr>"
  have a: "preprocess_try env0 ''rgba.png'' = Inr ?t" by code_simp
  have b: "model_predict env0 ?t = Inl (LibError ''input is incompatible with the layer'')"
    by code_simp
  from inference_failure_aborts_batch [OF a b, of world0 1 "[''a.png'']" "[]" "[]"]
  show ?thesis by (simp add: world0_def del: batch_loop.simps(2))
qed

text \<open>Claim C5 as stated (the entry is skipped without aborting the batch) is false: the
  batch run ends with the model's exception, the second file, which would be classified,
  is never read, and no report is written.\<close>

theorem batch_inference_failure_not_skipped:
  "snd (batch_predict env0 [''rgba.png'', ''g.png''] world0)
     = Some (LibError ''input is incompatible with the layer'')
   \<and> trace (fst (batch_predict env0 [''rgba.png'', ''g.png''] world0)) =
       [Makedirs (save_folder env0), Now, Imread ''rgba.png'', Predict]
   \<and> files (fst (batch_predict env0 [''rgba.png'', ''g.png''] world0))
       (os_path_join env0 (save_folder env0) (csv_name ''20240517_093001'')) = None
   \<and> prediction env0 ''g.png'' = Inr (Some ''COVID'', Some 50)"
  unfolding prediction_def by code_simp


section \<open>The report file name\<close>

lemma is_digit_digit: "is_digit (digit d)"
proof -
  have "d mod 10 < length ''0123456789''" by simp
  then have "''0123456789'' ! (d mod 10) \<in> set ''0123456789''" by (rule nth_mem)
  then show ?thesis by (simp only: is_digit_def digit_def)
qed

lemma is_timestamp_strftime: "is_timestamp (strftime t)"
  by (simp add: is_timestamp_def strftime_def pad2_def pad4_def is_digit_digit)

lemma predict_events_loop_event: "list_all loop_event (predict_events env p)"
  using predict_events_cases [of env p] by auto

lemma batch_loop_trace:
  assumes "batch_loop env i ps (w, res) = ((w', res'), out)"
  shows "\<exists>evs. trace w' = trace w @ evs \<and> list_all loop_event evs"
  using assms
proof (induction ps arbitrary: i w res)
  case Nil
  then show ?case by simp
next
  case (Cons p ps)
  let ?w1 = "w\<lparr>trace := trace w @ predict_events env p\<rparr>"
  show ?case
  proof (cases "prediction env p")
    case (Inl e)
    with Cons.prems have "w' = ?w1" by (simp add: batch_loop_step del: batch_loop.simps)
    then show ?thesis using predict_events_loop_event [of env p] by auto
  next
    case (Inr r)
    obtain w2 res2 out2 where b: "batch_body env i p r (?w1, res) = ((w2, res2), out2)"
      by (metis prod.exhaust)
    from batch_body_frame [OF b]
    have f: "trace w2 = trace w @ predict_events env p" by simp
    show ?thesis
    proof (cases out2)
      case (Some e)
      with Cons.prems Inr b have "w' = w2" by (simp add: batch_loop_step del: batch_loop.simps)
      with f show ?thesis using predict_events_loop_event [of env p] by auto
    next
      case None
      with Cons.prems Inr b
      have "batch_loop env (Suc i) ps (w2, res2) = ((w', res'), out)"
        by (simp add: batch_loop_step del: batch_loop.simps)
      from Cons.IH [OF this] obtain evs where
        "trace w' = trace w2 @ evs" "list_all loop_event evs"
        by blast
      with f have "trace w' = trace w @ (predict_events env p @ evs)"
        "list_all loop_event (predict_events env p @ evs)"
        using predict_events_loop_event [of env p] by simp_all
      then show ?thesis by blast
    qed
  qed
qed

lemma loop_event_not_clock:
  assumes "list_all loop_event evs"
  shows "Now \<notin> set evs \<and> (\<forall>q rows. WriteCsv q rows \<notin> set evs)"
proof -
  have "\<not> loop_event Now" and "\<And>q rows. \<not> loop_event (WriteCsv q rows)" by simp_all
  with assms show ?thesis by (auto simp: list_all_iff)
qed

text \<open>Claim C7, as amended: the clock is read once, right after the destination directory is
  made and before the first image is read (lines 95-98 precede the loop), not after the
  list is exhausted. Every report written by the run goes to the path that joins the
  fixed directory, the prefix \<open>xray_predictions_\<close>, that timestamp in the form
  \<open>YYYYMMDD_HHMMSS\<close> and \<open>.csv\<close>; the directory exists afterwards, and making it
  again changes nothing.\<close>

theorem batch_timestamp_before_loop:
  assumes "file_paths \<noteq> []"
  shows "\<exists>evs. trace (fst (batch_predict env file_paths w))
             = trace w @ [Makedirs (save_folder env), Now] @ evs
           \<and> Now \<notin> set evs
           \<and> (\<forall>q rows. WriteCsv q rows \<in> set evs \<longrightarrow>
                 q = os_path_join env (save_folder env)
                       (csv_name (strftime (datetime_now env (Suc (length (trace w)))))))
           \<and> is_timestamp (strftime (datetime_now env (Suc (length (trace w)))))
           \<and> save_folder env \<in> dirs (fst (batch_predict env file_paths w))
           \<and> dirs (makedirs (save_folder env) (makedirs (save_folder env) w))
               = dirs (makedirs (save_folder env) w)"
proof -
  let ?w3 = "w\<lparr>progress_value := 0, progress_maximum := length file_paths,
      listbox := [], dirs := insert (save_folder env) (dirs w),
      trace := trace w @ [Makedirs (save_folder env), Now]\<rparr>"
  let ?csv = "os_path_join env (save_folder env)
      (csv_name (strftime (datetime_now env (Suc (length (trace w))))))"
  obtain w4 results out where
    r: "batch_loop env 1 file_paths (?w3, []) = ((w4, results), out)"
    by (metis prod.exhaust)
  from batch_loop_trace [OF r] obtain evs where
    t: "trace w4 = trace w @ [Makedirs (save_folder env), Now] @ evs"
    and le: "list_all loop_event evs"
    by auto
  from loop_event_not_clock [OF le]
  have nc: "Now \<notin> set evs" and nw: "\<And>q rows. WriteCsv q rows \<notin> set evs" by simp_all
  from batch_loop_frame [OF r] have d: "dirs w4 = insert (save_folder env) (dirs w)" by simp
  have idem: "dirs (makedirs (save_folder env) (makedirs (save_folder env) w))
               = dirs (makedirs (save_folder env) w)"
    by (simp add: makedirs_def log_def)
  show ?thesis
  proof (cases out)
    case (Some e)
    with r have "fst (batch_predict env file_paths w) = w4"
      using assms by (simp add: batch_predict_unfold del: batch_loop.simps)
    with t nc nw d idem is_timestamp_strftime show ?thesis by auto
  next
    case None
    let ?evs = "evs @ [WriteCsv ?csv ([''Image'', ''Prediction'', ''Confidence''] # results),
      ShowInfo ''Batch Prediction''
        (''Predictions completed!'' @ [nl] @ ''Saved to: '' @ ?csv)]"
    from None r have tr: "trace (fst (batch_predict env file_paths w))
         = trace w @ [Makedirs (save_folder env), Now] @ ?evs"
      and dd: "save_folder env \<in> dirs (fst (batch_predict env file_paths w))"
      using assms t d by (simp_all add: batch_predict_unfold del: batch_loop.simps)
    have a: "Now \<notin> set ?evs" using nc by simp
    have b: "\<forall>q rows. WriteCsv q rows \<in> set ?evs \<longrightarrow> q = ?csv" using nw by auto
    from tr a b dd idem is_timestamp_strftime show ?thesis by blast
  qed
qed


lemma format0_40: "format_2f env0 40 = ''40.00''"
  by (simp add: env0_def format0_def digit_def)

lemma basename0_a_png: "os_path_basename env0 ''a.png'' = ''a.png''"
  by (simp add: env0_def basename0_def bs_def)

lemma env0_events_a_png: "predict_events env0 ''a.png'' = [Imread ''a.png'', Predict]"
  unfolding predict_events_def by code_simp

lemma env0_clock: "strftime (datetime_now env0 (Suc 0)) = ''20240517_093001''"
  by code_simp

lemma env0_batch_a_png:
  assumes "listbox w = []"
  shows "batch_loop env0 (Suc 0) [''a.png''] (w, []) =
     ((w\<lparr>trace := trace w @ [Imread ''a.png'', Predict],
         listbox := [(''a.png '' @ arrow @ '' TB (40.00%)'', Some ''#FF9900'')],
         progress_value := Suc 0\<rparr>,
       [[''a.png'', ''TB'', ''40.00%'']]), None)"
proof -
  let ?w1 = "w\<lparr>trace := trace w @ predict_events env0 ''a.png''\<rparr>"
  have rng: "Suc 0 - 1 \<le> length (listbox ?w1)" by simp
  have b: "batch_body env0 (Suc 0) ''a.png'' (Some ''TB'', Some 40) (?w1, []) =
     ((w\<lparr>trace := trace w @ [Imread ''a.png'', Predict],
         listbox := [(''a.png '' @ arrow @ '' TB (40.00%)'', Some ''#FF9900'')],
         progress_value := Suc 0\<rparr>,
       [[''a.png'', ''TB'', ''40.00%'']]), None)"
    unfolding batch_body_in_range [OF rng]
    by (simp add: assms env0_events_a_png format0_40 basename0_a_png dict_get_def
        CLASS_COLORS_def)
  show ?thesis
    unfolding batch_loop_step env0_a_png
    by (simp add: b)
qed

lemma env0_batch_predict_a_png:
  "batch_predict env0 [''a.png''] world0 =
     (world0\<lparr>progress_value := 0, progress_maximum := Suc 0, listbox := [],
        dirs := insert (save_folder env0) (dirs world0),
        trace := trace world0 @ [Makedirs (save_folder env0), Now]\<rparr>
      \<lparr>trace := trace world0 @ [Makedirs (save_folder env0), Now] @ [Imread ''a.png'', Predict],
        listbox := [(''a.png '' @ arrow @ '' TB (40.00%)'', Some ''#FF9900'')],
        progress_value := Suc 0\<rparr>
      \<lparr>files := (files world0)
          (os_path_join env0 (save_folder env0) (csv_name ''20240517_093001'')
            \<mapsto> [[''Image'', ''Prediction'', ''Confidence''], [''a.png'', ''TB'', ''40.00%'']]),
        trace := trace world0 @ [Makedirs (save_folder env0), Now, Imread ''a.png'', Predict,
          WriteCsv (os_path_join env0 (save_folder env0) (csv_name ''20240517_093001''))
            [[''Image'', ''Prediction'', ''Confidence''], [''a.png'', ''TB'', ''40.00%'']],
          ShowInfo ''Batch Prediction''
            (''Predictions completed!'' @ [nl] @ ''Saved to: '' @
             os_path_join env0 (save_folder env0) (csv_name ''20240517_093001''))]\<rparr>, None)"
proof -
  have t0: "trace world0 = []" by (simp add: world0_def)
  have ne: "[''a.png''] \<noteq> []" by simp
  let ?w3 = "world0\<lparr>progress_value := 0, progress_maximum := length [''a.png''], listbox := [],
        dirs := insert (save_folder env0) (dirs world0),
        trace := trace world0 @ [Makedirs (save_folder env0), Now]\<rparr>"
  have lb: "listbox ?w3 = []" by simp
  have one: "(1::nat) = Suc 0" by simp
  show ?thesis
    unfolding batch_predict_unfold [OF ne] one env0_batch_a_png [OF lb]
    by (simp add: t0 env0_clock)
qed

text \<open>A batch of one file: the report is at the path carrying the time read before the
  loop.\<close>

theorem batch_timestamp_before_loop_witness:
  "files (fst (batch_predict env0 [''a.png''] world0))
     (os_path_join env0 (save_folder env0) ''xray_predictions_20240517_093001.csv'')
     = Some [[''Image'', ''Prediction'', ''Confidence''], [''a.png'', ''TB'', ''40.00%'']]
   \<and> is_timestamp ''20240517_093001''
   \<and> save_folder env0 \<in> dirs (fst (batch_predict env0 [''a.png''] world0))"
proof -
  have a: "[''a.png''] \<noteq> []" by simp
  have s: "strftime (datetime_now env0 (Suc (length (trace world0)))) = ''20240517_093001''"
    by (simp add: world0_def env0_clock)
  have f: "files (fst (batch_predict env0 [''a.png''] world0))
     (os_path_join env0 (save_folder env0) ''xray_predictions_20240517_093001.csv'')
     = Some [[''Image'', ''Prediction'', ''Confidence''], [''a.png'', ''TB'', ''40.00%'']]"
    unfolding env0_batch_predict_a_png by (simp add: csv_name_def)
  from batch_timestamp_before_loop [OF a, of env0 world0]
  have "is_timestamp (strftime (datetime_now env0 (Suc (length (trace world0)))))"
    and "save_folder env0 \<in> dirs (fst (batch_predict env0 [''a.png''] world0))"
    by blast+
  with s f show ?thesis by simp
qed

text \<open>Claim C7 as stated (the timestamp is computed after the list is exhausted) is false:
  in the log of a batch run the clock is read before the image, and the file name
  carries the time of that moment (second 01), not the time at the end of the loop
  (second 04).\<close>

theorem batch_timestamp_read_before_images:
  "trace (fst (batch_predict env0 [''a.png''] world0)) =
     [Makedirs (save_folder env0), Now, Imread ''a.png'', Predict,
      WriteCsv (os_path_join env0 (save_folder env0) (csv_name ''20240517_093001''))
        [[''Image'', ''Prediction'', ''Confidence''], [''a.png'', ''TB'', ''40.00%'']],
      ShowInfo ''Batch Prediction''
        (''Predictions completed!'' @ [nl] @ ''Saved to: '' @
         os_path_join env0 (save_folder env0) (csv_name ''20240517_093001''))]
   \<and> strftime (datetime_now env0 1) = ''20240517_093001''
   \<and> strftime (datetime_now env0 4) = ''20240517_093004''"
proof -
  have a: "strftime (datetime_now env0 4) = ''20240517_093004''" by code_simp
  have b: "strftime (datetime_now env0 1) = ''20240517_093001''" by code_simp
  have c: "trace world0 = []" by (simp add: world0_def)
  show ?thesis
    unfolding env0_batch_predict_a_png by (simp add: a env0_clock c)
qed

section \<open>The annotation\<close>

text \<open>Claim C8: for an image PIL can open, \<open>overlay_prediction\<close> returns an RGB image
  of the size \<open>thumbnail\<close> computes for the bound (300, 300), which by PIL's contract
  exceeds 300 in neither dimension, with a rectangle from (0, 0) to (width, 25) in the
  colour of the label, black for a label without one, and the text
  \<open>label (confidence%)\<close> in white at (5, 5); the world is changed only by the log of the
  file being opened: no file is written and no widget is touched.\<close>

theorem overlay_prediction_banner:
  assumes "Image_open env p = Inr im"
    and "\<And>sz. fst (thumbnail_size env sz (300, 300)) \<le> 300
              \<and> snd (thumbnail_size env sz (300, 300)) \<le> 300"
  shows "\<exists>img. overlay_prediction env p label (Some c) w = (log (PILOpen p) w, Inr img)
           \<and> im_mode img = ''RGB''
           \<and> (im_width img, im_height img)
               = thumbnail_size env (im_width im, im_height im) (300, 300)
           \<and> im_width img \<le> 300 \<and> im_height img \<le> 300
           \<and> im_ops img = im_ops im @
               [Rectangle 0 0 (im_width img) 25
                  (case CLASS_COLORS label of Some col \<Rightarrow> col | None \<Rightarrow> ''black''),
                DrawText 5 5 (label @ '' ('' @ format_2f env c @ ''%)'') ''white'']
           \<and> dom CLASS_COLORS = set CLASS_NAMES"
proof -
  have d: "dom CLASS_COLORS = set CLASS_NAMES"
    by (simp add: CLASS_COLORS_def CLASS_NAMES_def dom_map_of_conv_image_fst)
  from assms(2) [of "(im_width im, im_height im)"]
  have b: "fst (thumbnail_size env (im_width im, im_height im) (300, 300)) \<le> 300"
    "snd (thumbnail_size env (im_width im, im_height im) (300, 300)) \<le> 300"
    by simp_all
  show ?thesis
    using assms(1) b d
    by (simp add: overlay_prediction_def py_format_2f_def dict_get_def Let_def)
qed

lemma thumb0_fits:
  "fst (thumb0 sz (300, 300)) \<le> 300 \<and> snd (thumb0 sz (300, 300)) \<le> 300"
proof -
  have k: "a * 300 div b \<le> 300" if "a \<le> b" for a b :: nat
  proof (cases "b = 0")
    case True
    then show ?thesis by simp
  next
    case False
    from that have "a * 300 \<le> b * 300" by simp
    then have "a * 300 div b \<le> b * 300 div b" by (rule div_le_mono)
    with False show ?thesis by simp
  qed
  show ?thesis
    by (cases sz) (auto simp: thumb0_def k)
qed

text \<open>A 600 by 400 image labelled TB with confidence 40.\<close>

theorem overlay_prediction_banner_witness:
  "snd (overlay_prediction env0 ''a.png'' ''TB'' (Some 40) world0) =
     Inr \<lparr>im_mode = ''RGB'', im_width = 300, im_height = 200,
          im_ops = [Rectangle 0 0 300 25 ''#FF9900'',
                    DrawText 5 5 ''TB (40.00%)'' ''white'']\<rparr>
   \<and> trace (fst (overlay_prediction env0 ''a.png'' ''TB'' (Some 40) world0)) = [PILOpen ''a.png'']"
proof -
  have a: "Image_open env0 ''a.png'' =
      Inr \<lparr>im_mode = ''RGB'', im_width = 600, im_height = 400, im_ops = []\<rparr>"
    by code_simp
  have b: "fst (thumbnail_size env0 sz (300, 300)) \<le> 300
      \<and> snd (thumbnail_size env0 sz (300, 300)) \<le> 300" for sz
    using thumb0_fits [of sz] by (simp add: env0_def)
  have t: "thumbnail_size env0 (600, 400) (300, 300) = (300, 200)"
    by (simp add: env0_def thumb0_def)
  have col: "CLASS_COLORS ''TB'' = Some ''#FF9900''" by (simp add: CLASS_COLORS_def)
  from overlay_prediction_banner [OF a b, of "''TB''" 40 world0]
  obtain img where
    r: "overlay_prediction env0 ''a.png'' ''TB'' (Some 40) world0
          = (log (PILOpen ''a.png'') world0, Inr img)"
    and m: "im_mode img = ''RGB''"
    and sz: "(im_width img, im_height img) = (300, 200)"
    and ops: "im_ops img = [Rectangle 0 0 (im_width img) 25 ''#FF9900'',
                DrawText 5 5 (''TB'' @ '' ('' @ format_2f env0 40 @ ''%)'') ''white'']"
    by (auto simp: t col)
  from m sz ops have "img = \<lparr>im_mode = ''RGB'', im_width = 300, im_height = 200,
          im_ops = [Rectangle 0 0 300 25 ''#FF9900'',
                    DrawText 5 5 ''TB (40.00%)'' ''white'']\<rparr>"
    by (cases img) (simp add: format0_40)
  with r show ?thesis by (simp add: log_def world0_def)
qed

end
